theory Spec2Isabelle
  imports Main "HOL-Library.Sublist"
begin

section \<open>Values that cross the network\<close>

text \<open>
  The parsed body of an answer is a JSON value. Numbers are integers here: the widget
  only ever tests a number for being zero, so a fraction behaves as any other number
  that is not zero. An object is the list of its own properties; \<open>field\<close> reads the
  first binding of a name.
\<close>

datatype json =
    JNull
  | JBool bool
  | JNum int
  | JStr string
  | JArr "json list"
  | JObj "(string \<times> json) list"

text \<open>
  What a \<open>throw\<close> or a rejected promise carries. \<open>Error m\<close> is \<open>new Error(m)\<close>,
  with \<open>m\<close> the constructor's argument; \<open>TypeError\<close> is what the engine raises on a
  property read of \<open>null\<close> or \<open>undefined\<close> and what \<open>fetch\<close> rejects with when the
  network fails; \<open>SyntaxError\<close> is what \<open>response.json()\<close> rejects with on a body that
  is not JSON.
\<close>

datatype thrown = Error json | TypeError | SyntaxError

text \<open>
  \<open>data.k\<close> for a name \<open>k\<close> that no prototype defines (the widget reads \<open>error\<close>
  and \<open>message\<close>): \<open>None\<close> is \<open>undefined\<close>; reading a property of \<open>null\<close> throws.
\<close>

fun field :: "json \<Rightarrow> string \<Rightarrow> thrown + json option" where
  "field JNull k = Inl TypeError"
| "field (JObj kvs) k = Inr (map_of kvs k)"
| "field v k = Inr None"

text \<open>JavaScript truthiness of a value read from a body (\<open>None\<close> is \<open>undefined\<close>).\<close>

fun truthy :: "json option \<Rightarrow> bool" where
  "truthy None = False"
| "truthy (Some JNull) = False"
| "truthy (Some (JBool b)) = b"
| "truthy (Some (JNum n)) = (n \<noteq> 0)"
| "truthy (Some (JStr s)) = (s \<noteq> [])"
| "truthy (Some (JArr xs)) = True"
| "truthy (Some (JObj kvs)) = True"

text \<open>\<open>v || d\<close> for a value read from a body.\<close>

fun or_else :: "json option \<Rightarrow> json \<Rightarrow> json" where
  "or_else None d = d"
| "or_else (Some v) d = (if truthy (Some v) then v else d)"

text \<open>Decimal rendering of a number inside a template literal.\<close>

fun decimal :: "nat \<Rightarrow> string" where
  "decimal n =
     (if n < 10 then [''0123456789'' ! n]
      else decimal (n div 10) @ [''0123456789'' ! (n mod 10)])"

declare decimal.simps [simp del]

definition string_of_int :: "int \<Rightarrow> string" where
  "string_of_int i = (if i < 0 then ''-'' @ decimal (nat (- i)) else decimal (nat i))"

section \<open>Configuration\<close>

definition apiUrl :: string where
  "apiUrl = ''https://tattoo-gallery-api.garrett-tattooagent.workers.dev/gallery''"

text \<open>\<open>s.replace(pat, by)\<close> with a string pattern: the first occurrence only.\<close>

fun replace :: "string \<Rightarrow> string \<Rightarrow> string \<Rightarrow> string" where
  "replace [] pat rep = (if pat = [] then rep else [])"
| "replace (c # cs) pat rep =
     (if prefix pat (c # cs) then rep @ drop (length pat) (c # cs)
      else c # replace cs pat rep)"

section \<open>Image Fetcher\<close>

record response =
  status :: nat
  body :: "json option"

text \<open>
  How the request of \<open>fetchImages\<close> settles: \<open>fetch\<close> rejects, or it resolves with a
  response. \<open>body r = None\<close> is a body that does not parse as JSON.
\<close>

datatype fetch_outcome = Rejected thrown | Resolved response

definition ok :: "response \<Rightarrow> bool" where
  "ok r = (200 \<le> status r \<and> status r \<le> 299)"

text \<open>
  \<open>fetchImages\<close> once its request has settled: \<open>Inl\<close> is the rejection of the promise
  it returns, \<open>Inr\<close> the value it resolves with.
\<close>

definition fetchImages :: "fetch_outcome \<Rightarrow> thrown + json" where
  "fetchImages net =
     (case net of
        Rejected e \<Rightarrow> Inl e
      | Resolved response \<Rightarrow>
          if \<not> ok response then Inl (Error (JStr (''API error: '' @ decimal (status response))))
          else
            (case body response of
               None \<Rightarrow> Inl SyntaxError
             | Some data \<Rightarrow>
                 (case field data ''error'' of
                    Inl e \<Rightarrow> Inl e
                  | Inr err \<Rightarrow>
                      if truthy err then
                        (case field data ''message'' of
                           Inl e \<Rightarrow> Inl e
                         | Inr msg \<Rightarrow> Inl (Error (or_else msg (JStr ''Unknown error''))))
                      else Inr data)))"

section \<open>Data model\<close>

text \<open>An image descriptor of the listing API: \<open>{id, name}\<close>.\<close>

record image =
  id' :: string
  name :: string

text \<open>
  The typed view of a parsed body: a JSON array of objects whose \<open>id\<close> and \<open>name\<close>
  are strings is a list of image descriptors. The widget never checks the shape of a
  body; the gallery below keeps \<open>images\<close> as a list of descriptors, so it covers the
  bodies that have this shape, and \<open>as_images\<close> is \<open>None\<close> on every other body.
\<close>

fun as_image :: "json \<Rightarrow> image option" where
  "as_image (JObj kvs) =
     (case (map_of kvs ''id'', map_of kvs ''name'') of
        (Some (JStr i), Some (JStr n)) \<Rightarrow> Some \<lparr>id' = i, name = n\<rparr>
      | _ \<Rightarrow> None)"
| "as_image v = None"

fun as_image_list :: "json list \<Rightarrow> image list option" where
  "as_image_list [] = Some []"
| "as_image_list (v # vs) =
     (case as_image v of
        None \<Rightarrow> None
      | Some x \<Rightarrow> (case as_image_list vs of None \<Rightarrow> None | Some xs \<Rightarrow> Some (x # xs)))"

fun as_images :: "json \<Rightarrow> image list option" where
  "as_images (JArr vs) = as_image_list vs"
| "as_images v = None"

section \<open>The page\<close>

text \<open>
  One \<open>.tg-item\<close> of the grid: its thumbnail's deferred source and alternative text,
  the classes \<open>tg-lazy\<close> (on the thumbnail) and \<open>tg-visible\<close> (on the item), the index
  its click listener passes to \<open>openLightbox\<close>, and whether the lazy loader observes
  the thumbnail.
\<close>

record grid_item =
  data_src :: string
  alt :: string
  lazy :: bool
  item_visible :: bool
  click_index :: int
  observed :: bool

text \<open>What the container element shows.\<close>

datatype view =
    Untouched
  | LoadingView
  | EmptyView
  | ErrorView string
  | GridView "grid_item list"

text \<open>
  One \<open>.tg-lightbox\<close> element: its identity, the class \<open>tg-lightbox-visible\<close>, the
  image's \<open>src\<close>, \<open>alt\<close> and \<open>style.opacity\<close>, the caption's and the counter's text,
  \<open>style.display\<close> of the two navigation buttons, and the two variables that the
  touch listeners of \<open>setupTouchNavigation\<close> share. The \<open>onload\<close> and \<open>onerror\<close>
  callbacks of the image only restyle it later and are left out.
\<close>

record lightbox =
  node :: nat
  lb_visible :: bool
  img_src :: string
  img_alt :: string
  img_opacity :: string
  caption :: string
  counter :: string
  prev_display :: string
  next_display :: string
  touchStartX :: int
  touchEndX :: int

text \<open>What a \<open>setTimeout\<close> callback of the widget does when it runs.\<close>

datatype timer =
    RevealItems
  | RevealItem nat
  | ShowLightbox nat
  | RemoveLightbox nat

text \<open>
  One gallery instance and the page around it. The first six fields are the instance
  (\<open>keyHandler\<close> is the identity of the closure last stored there, \<open>None\<close> for
  \<open>undefined\<close>); the others are the document and its environment: the \<open>.tg-lightbox\<close>
  children of the body in document order, \<open>document.body.style.overflow\<close>, the
  \<open>keydown\<close> listeners of the document, the next unused identity, the pending timers
  with their delay in milliseconds, what \<open>console.error\<close> received, and the URLs
  that were fetched.
\<close>

record world =
  container :: view
  folderId :: "string option"
  columns :: int
  images :: "image list"
  currentImageIndex :: int
  keyHandler :: "nat option"
  lightboxes :: "lightbox list"
  overflow :: string
  keydown :: "nat list"
  fresh :: nat
  timers :: "(nat \<times> timer) list"
  console :: "thrown list"
  requests :: "string list"

text \<open>
  A method returns the world it leaves behind and what it threw, if anything:
  the assignments made before a \<open>throw\<close> stay.
\<close>

type_synonym outcome = "thrown option \<times> world"

definition and_then :: "outcome \<Rightarrow> (world \<Rightarrow> outcome) \<Rightarrow> outcome" where
  "and_then r f = (case r of (Some e, w) \<Rightarrow> (Some e, w) | (None, w) \<Rightarrow> f w)"

section \<open>Gallery Instance: the three states of the container\<close>

definition showLoading :: "world \<Rightarrow> world" where
  "showLoading w = w\<lparr>container := LoadingView\<rparr>"

definition showEmpty :: "world \<Rightarrow> world" where
  "showEmpty w = w\<lparr>container := EmptyView\<rparr>"

definition showError :: "string \<Rightarrow> world \<Rightarrow> world" where
  "showError message w = w\<lparr>container := ErrorView message\<rparr>"

section \<open>Grid Renderer and Lazy Loader\<close>

definition createImageItem :: "image \<Rightarrow> int \<Rightarrow> grid_item" where
  "createImageItem image' index =
     \<lparr>data_src = replace apiUrl ''/gallery'' '''' @ ''/image/'' @ id' image' @ ''?size=s800'',
      alt = name image',
      lazy = True,
      item_visible = False,
      click_index = index,
      observed = False\<rparr>"

definition renderGallery :: "world \<Rightarrow> world" where
  "renderGallery w =
     w\<lparr>container :=
         GridView (map (\<lambda>(index, image'). createImageItem image' (int index))
                       (enumerate 0 (images w))),
       timers := timers w @ [(10, RevealItems)]\<rparr>"

definition setupLazyLoading :: "world \<Rightarrow> world" where
  "setupLazyLoading w =
     (case container w of
        GridView items \<Rightarrow>
          w\<lparr>container :=
              GridView (map (\<lambda>item. if lazy item then item\<lparr>observed := True\<rparr> else item) items)\<rparr>
      | _ \<Rightarrow> w)"

section \<open>Gallery Instance: construction and \<open>init\<close>\<close>

text \<open>
  \<open>init\<close> up to its first suspension: the loading state is shown and the request of
  \<open>fetchImages\<close> is sent.
\<close>

definition init_begin :: "world \<Rightarrow> world" where
  "init_begin w =
     (showLoading w)
       \<lparr>requests := requests w @
          [apiUrl @ ''/'' @ (case folderId w of None \<Rightarrow> ''undefined'' | Some f \<Rightarrow> f)]\<rparr>"

text \<open>
  \<open>init\<close> from the moment the request has settled. The result is \<open>None\<close> exactly
  when \<open>fetchImages\<close> returns a body that is not a list of image descriptors, which
  is outside what \<open>images\<close> can hold here.
\<close>

definition init_resume :: "fetch_outcome \<Rightarrow> world \<Rightarrow> world option" where
  "init_resume net w =
     (case fetchImages net of
        Inr data \<Rightarrow>
          (case as_images data of
             None \<Rightarrow> None
           | Some fetched \<Rightarrow>
               (let w1 = w\<lparr>images := fetched\<rparr>
                in Some (if length (images w1) = 0 then showEmpty w1
                         else setupLazyLoading (renderGallery w1))))
      | Inl error \<Rightarrow>
          Some (showError ''Failed to load gallery. Please try again later.''
                  (w\<lparr>console := console w @ [error]\<rparr>)))"

text \<open>A whole run of \<open>init\<close> whose request settles with \<open>net\<close>.\<close>

definition init :: "fetch_outcome \<Rightarrow> world \<Rightarrow> world option" where
  "init net w = init_resume net (init_begin w)"

text \<open>
  \<open>new TattooGallery(container)\<close> on the page \<open>page\<close>, up to the point where the
  constructor returns. \<open>folder\<close> is \<open>container.dataset.folderId\<close> (\<open>None\<close> when the
  attribute is absent) and \<open>cols\<close> is \<open>parseInt(container.dataset.columns)\<close> (\<open>None\<close>
  for \<open>NaN\<close>). The fields of the new instance are set, a falsy folder id ends the
  constructor with the error state, and otherwise \<open>this.init()\<close> runs up to its
  suspension.
\<close>

definition constructor :: "string option \<Rightarrow> int option \<Rightarrow> world \<Rightarrow> world" where
  "constructor folder cols page =
     (let this = page
           \<lparr>folderId := folder,
            columns := (case cols of None \<Rightarrow> 3 | Some n \<Rightarrow> if n = 0 then 3 else n),
            images := [],
            currentImageIndex := 0,
            keyHandler := None\<rparr>
      in if folderId this = None \<or> folderId this = Some []
         then showError ''Missing data-folder-id attribute'' this
         else init_begin this)"

section \<open>Lightbox Controller\<close>

text \<open>\<open>document.querySelector('.tg-lightbox')\<close>: the first one in document order.\<close>

definition query_lightbox :: "world \<Rightarrow> nat option" where
  "query_lightbox w = (case lightboxes w of [] \<Rightarrow> None | l # _ \<Rightarrow> Some (node l))"

definition update_node :: "nat \<Rightarrow> (lightbox \<Rightarrow> lightbox) \<Rightarrow> lightbox list \<Rightarrow> lightbox list" where
  "update_node n f ls = map (\<lambda>l. if node l = n then f l else l) ls"

text \<open>\<open>xs[i]\<close> on an array: \<open>None\<close> is \<open>undefined\<close>.\<close>

definition at_index :: "'a list \<Rightarrow> int \<Rightarrow> 'a option" where
  "at_index xs i = (if 0 \<le> i \<and> i < int (length xs) then Some (xs ! nat i) else None)"

text \<open>
  \<open>updateLightboxImage(lightbox)\<close>; the argument \<open>None\<close> is the call without
  argument, which takes the default. When \<open>this.images[this.currentImageIndex]\<close> is
  \<open>undefined\<close>, the read of \<open>image.id\<close> throws after the opacity has been set.
\<close>

definition updateLightboxImage :: "nat option \<Rightarrow> world \<Rightarrow> outcome" where
  "updateLightboxImage arg w =
     (case (case arg of None \<Rightarrow> query_lightbox w | Some n \<Rightarrow> Some n) of
        None \<Rightarrow> (None, w)
      | Some n \<Rightarrow>
          (case at_index (images w) (currentImageIndex w) of
             None \<Rightarrow>
               (Some TypeError,
                w\<lparr>lightboxes := update_node n (\<lambda>l. l\<lparr>img_opacity := ''0''\<rparr>) (lightboxes w)\<rparr>)
           | Some image' \<Rightarrow>
               (None,
                w\<lparr>lightboxes :=
                    update_node n
                      (\<lambda>l. l\<lparr>img_opacity := ''0'',
                              img_src := replace apiUrl ''/gallery'' '''' @ ''/image/'' @
                                         id' image' @ ''?size=s2000'',
                              img_alt := name image',
                              caption := name image',
                              counter := string_of_int (currentImageIndex w + 1) @ '' / '' @
                                         decimal (length (images w)),
                              prev_display :=
                                (if currentImageIndex w = 0 then ''none'' else ''flex''),
                              next_display :=
                                (if currentImageIndex w = int (length (images w)) - 1
                                 then ''none'' else ''flex'')\<rparr>)
                      (lightboxes w)\<rparr>)))"

definition prevImage :: "world \<Rightarrow> outcome" where
  "prevImage w =
     (if currentImageIndex w > 0
      then updateLightboxImage None (w\<lparr>currentImageIndex := currentImageIndex w - 1\<rparr>)
      else (None, w))"

definition nextImage :: "world \<Rightarrow> outcome" where
  "nextImage w =
     (if currentImageIndex w < int (length (images w)) - 1
      then updateLightboxImage None (w\<lparr>currentImageIndex := currentImageIndex w + 1\<rparr>)
      else (None, w))"

text \<open>
  \<open>closeLightbox()\<close> acts on the first lightbox of the document; the element itself
  stays in the document until the timer of 300 ms removes it.
\<close>

definition closeLightbox :: "world \<Rightarrow> outcome" where
  "closeLightbox w =
     (case query_lightbox w of
        None \<Rightarrow> (None, w)
      | Some n \<Rightarrow>
          (None,
           w\<lparr>lightboxes := update_node n (\<lambda>l. l\<lparr>lb_visible := False\<rparr>) (lightboxes w),
             keydown := (case keyHandler w of None \<Rightarrow> keydown w | Some h \<Rightarrow> remove1 h (keydown w)),
             overflow := '''',
             timers := timers w @ [(300, RemoveLightbox n)]\<rparr>))"

definition handleSwipe :: "int \<Rightarrow> int \<Rightarrow> world \<Rightarrow> outcome" where
  "handleSwipe startX endX w =
     (let swipeThreshold = 50;
          diff = startX - endX
      in if \<bar>diff\<bar> > swipeThreshold
         then (if diff > 0 then nextImage w else prevImage w)
         else (None, w))"

text \<open>
  \<open>setupTouchNavigation\<close> declares the two variables; its two listeners on the image
  container are \<open>touchstart\<close> and \<open>touchend\<close> below.
\<close>

definition setupTouchNavigation :: "nat \<Rightarrow> world \<Rightarrow> world" where
  "setupTouchNavigation n w =
     w\<lparr>lightboxes := update_node n (\<lambda>l. l\<lparr>touchStartX := 0, touchEndX := 0\<rparr>) (lightboxes w)\<rparr>"

text \<open>The first changed touch of a touch event.\<close>

record touch =
  screenX :: int
  screenY :: int

definition touchstart :: "nat \<Rightarrow> touch \<Rightarrow> world \<Rightarrow> outcome" where
  "touchstart n t w =
     (None, w\<lparr>lightboxes := update_node n (\<lambda>l. l\<lparr>touchStartX := screenX t\<rparr>) (lightboxes w)\<rparr>)"

definition touchend :: "nat \<Rightarrow> touch \<Rightarrow> world \<Rightarrow> outcome" where
  "touchend n t w =
     (case find (\<lambda>l. node l = n) (lightboxes w) of
        None \<Rightarrow> (None, w)
      | Some l \<Rightarrow>
          handleSwipe (touchStartX l) (screenX t)
            (w\<lparr>lightboxes := update_node n (\<lambda>l. l\<lparr>touchEndX := screenX t\<rparr>) (lightboxes w)\<rparr>))"

text \<open>
  The page once the two touch listeners of lightbox \<open>n\<close> have stored the horizontal
  coordinates \<open>x0\<close> (start) and \<open>x1\<close> (end) of a gesture.
\<close>

definition touch_recorded :: "nat \<Rightarrow> int \<Rightarrow> int \<Rightarrow> world \<Rightarrow> world" where
  "touch_recorded n x0 x1 w =
     w\<lparr>lightboxes :=
         update_node n (\<lambda>l. l\<lparr>touchEndX := x1\<rparr>)
           (update_node n (\<lambda>l. l\<lparr>touchStartX := x0\<rparr>) (lightboxes w))\<rparr>"

text \<open>One run of the closure stored in \<open>this.keyHandler\<close>, on a key.\<close>

definition keyHandler_run :: "string \<Rightarrow> world \<Rightarrow> outcome" where
  "keyHandler_run key w =
     and_then (if key = ''Escape'' then closeLightbox w else (None, w))
       (\<lambda>w1. and_then (if key = ''ArrowLeft'' then prevImage w1 else (None, w1))
         (\<lambda>w2. if key = ''ArrowRight'' then nextImage w2 else (None, w2)))"

text \<open>
  \<open>openLightbox(index)\<close>. The new lightbox goes to the end of the body. When the
  rendering throws, the statements after it do not run: no listener is installed. The
  click listeners that are installed otherwise call \<open>closeLightbox\<close>, \<open>prevImage\<close> and
  \<open>nextImage\<close>; the \<open>keydown\<close> listener is a new closure each time.
\<close>

definition openLightbox :: "int \<Rightarrow> world \<Rightarrow> outcome" where
  "openLightbox index w =
     (let n = fresh w;
          w1 = w\<lparr>currentImageIndex := index,
                 lightboxes := lightboxes w @
                   [\<lparr>node = n, lb_visible = False, img_src = '''', img_alt = '''',
                     img_opacity = '''', caption = '''', counter = '''',
                     prev_display = '''', next_display = '''',
                     touchStartX = 0, touchEndX = 0\<rparr>],
                 overflow := ''hidden'',
                 fresh := n + 1\<rparr>
      in and_then (updateLightboxImage (Some n) w1)
           (\<lambda>w2. let h = fresh w2;
                     w3 = setupTouchNavigation n
                            (w2\<lparr>keyHandler := Some h,
                                keydown := keydown w2 @ [h],
                                fresh := h + 1\<rparr>)
                 in (None, w3\<lparr>timers := timers w3 @ [(10, ShowLightbox n)]\<rparr>)))"

text \<open>The click listener of the grid item at position \<open>k\<close>.\<close>

definition click_item :: "nat \<Rightarrow> world \<Rightarrow> outcome" where
  "click_item k w =
     (case container w of
        GridView items \<Rightarrow>
          if k < length items then openLightbox (click_index (items ! k)) w else (None, w)
      | _ \<Rightarrow> (None, w))"

text \<open>A pending timer runs.\<close>

fun fire :: "timer \<Rightarrow> world \<Rightarrow> world" where
  "fire RevealItems w =
     (case container w of
        GridView items \<Rightarrow>
          w\<lparr>timers := timers w @ map (\<lambda>i. (i * 50, RevealItem i)) [0 ..< length items]\<rparr>
      | _ \<Rightarrow> w)"
| "fire (RevealItem i) w =
     (case container w of
        GridView items \<Rightarrow>
          if i < length items
          then w\<lparr>container := GridView (items[i := (items ! i)\<lparr>item_visible := True\<rparr>])\<rparr>
          else w
      | _ \<Rightarrow> w)"
| "fire (ShowLightbox n) w =
     w\<lparr>lightboxes := update_node n (\<lambda>l. l\<lparr>lb_visible := True\<rparr>) (lightboxes w)\<rparr>"
| "fire (RemoveLightbox n) w =
     w\<lparr>lightboxes := filter (\<lambda>l. node l \<noteq> n) (lightboxes w)\<rparr>"

text \<open>A lightbox session: calls of \<open>nextImage\<close> and \<open>prevImage\<close> in any order.\<close>

datatype nav = Next | Prev

fun navigate :: "nav \<Rightarrow> world \<Rightarrow> outcome" where
  "navigate Next w = nextImage w"
| "navigate Prev w = prevImage w"

fun session :: "nav list \<Rightarrow> world \<Rightarrow> outcome" where
  "session [] w = (None, w)"
| "session (a # as) w = and_then (navigate a w) (session as)"

section \<open>The index invariant and example pages\<close>

text \<open>\<open>0 <= currentImageIndex < images.length\<close>.\<close>

definition index_in_range :: "world \<Rightarrow> bool" where
  "index_in_range w =
     (0 \<le> currentImageIndex w \<and> currentImageIndex w < int (length (images w)))"

text \<open>
  The navigation buttons of a lightbox agree with the index: previous is hidden exactly
  at the first image, next exactly at the last.
\<close>

definition buttons_match :: "world \<Rightarrow> lightbox \<Rightarrow> bool" where
  "buttons_match w l =
     (((prev_display l = ''none'') = (currentImageIndex w = 0)) \<and>
      ((next_display l = ''none'') = (currentImageIndex w = int (length (images w)) - 1)))"

text \<open>The document holds exactly one lightbox, and it agrees with a valid index.\<close>

definition single_lightbox_ok :: "world \<Rightarrow> bool" where
  "single_lightbox_ok w =
     (index_in_range w \<and>
      (case lightboxes w of [l] \<Rightarrow> buttons_match w l | _ \<Rightarrow> False))"

text \<open>A page without lightbox, listener or timer, and a container nobody has filled.\<close>

definition blank_page :: world where
  "blank_page =
     \<lparr>container = Untouched, folderId = None, columns = 3, images = [],
      currentImageIndex = 0, keyHandler = None, lightboxes = [], overflow = '''',
      keydown = [], fresh = 0, timers = [], console = [], requests = []\<rparr>"

definition cat_and_dog :: "image list" where
  "cat_and_dog = [\<lparr>id' = ''a'', name = ''Cat''\<rparr>, \<lparr>id' = ''b'', name = ''Dog''\<rparr>]"

definition cat_and_dog_answer :: fetch_outcome where
  "cat_and_dog_answer =
     Resolved \<lparr>status = 200,
       body = Some (JArr [JObj [(''id'', JStr ''a''), (''name'', JStr ''Cat'')],
                          JObj [(''id'', JStr ''b''), (''name'', JStr ''Dog'')]])\<rparr>"

text \<open>The gallery of folder \<open>F1\<close> holding the two images, no lightbox open.\<close>

definition gallery_F1 :: world where
  "gallery_F1 = blank_page\<lparr>folderId := Some ''F1'', images := cat_and_dog\<rparr>"

lemmas ex_defs = blank_page_def cat_and_dog_def gallery_F1_def

lemmas lb_defs = openLightbox_def updateLightboxImage_def at_index_def Let_def
  setupTouchNavigation_def update_node_def query_lightbox_def index_in_range_def
  nextImage_def prevImage_def string_of_int_def

section \<open>Basic facts\<close>

lemma and_then_None [simp]: "and_then (None, w) f = f w"
  by (simp add: and_then_def)

lemma and_then_Some [simp]: "and_then (Some e, w) f = (Some e, w)"
  by (simp add: and_then_def)

lemma pair_of_returns: "fst p = None \<Longrightarrow> p = (None, snd p)"
  by (cases p) simp

lemma decimal_digit: "n < 10 \<Longrightarrow> decimal n = [''0123456789'' ! n]"
  by (simp add: decimal.simps)

lemma image_base: "replace apiUrl ''/gallery'' '''' =
    ''https://tattoo-gallery-api.garrett-tattooagent.workers.dev''"
  by (simp add: apiUrl_def)

lemma update_node_length [simp]: "length (update_node n f ls) = length ls"
  by (simp add: update_node_def)

lemma in_update_node:
  assumes "l \<in> set (update_node n f ls)" and "node l = n" and "\<And>x. node (f x) = node x"
  shows "\<exists>x. l = f x"
proof -
  from assms(1) obtain x where x: "x \<in> set ls" "l = (if node x = n then f x else x)"
    by (auto simp: update_node_def)
  show ?thesis
  proof (cases "node x = n")
    case True
    with x show ?thesis by auto
  next
    case False
    with x assms(2) show ?thesis by simp
  qed
qed

subsection \<open>Rendering keeps the instance\<close>

lemma update_keeps_index [simp]:
  "currentImageIndex (snd (updateLightboxImage arg w)) = currentImageIndex w"
  by (simp add: updateLightboxImage_def split: option.splits)

lemma update_keeps_images [simp]:
  "images (snd (updateLightboxImage arg w)) = images w"
  by (simp add: updateLightboxImage_def split: option.splits)

lemma update_returns:
  "index_in_range w \<Longrightarrow> fst (updateLightboxImage arg w) = None"
  by (auto simp: updateLightboxImage_def index_in_range_def at_index_def split: option.splits)

subsection \<open>Navigation\<close>

lemma nextImage_index:
  "currentImageIndex (snd (nextImage w)) =
     (if currentImageIndex w < int (length (images w)) - 1 then currentImageIndex w + 1
      else currentImageIndex w)"
  by (simp add: nextImage_def)

lemma prevImage_index:
  "currentImageIndex (snd (prevImage w)) =
     (if currentImageIndex w > 0 then currentImageIndex w - 1 else currentImageIndex w)"
  by (simp add: prevImage_def)

lemma nextImage_images [simp]: "images (snd (nextImage w)) = images w"
  by (simp add: nextImage_def)

lemma prevImage_images [simp]: "images (snd (prevImage w)) = images w"
  by (simp add: prevImage_def)

lemma nextImage_returns: "index_in_range w \<Longrightarrow> fst (nextImage w) = None"
  by (simp add: nextImage_def update_returns index_in_range_def)

lemma prevImage_returns: "index_in_range w \<Longrightarrow> fst (prevImage w) = None"
  by (simp add: prevImage_def update_returns index_in_range_def)

lemma nextImage_in_range: "index_in_range w \<Longrightarrow> index_in_range (snd (nextImage w))"
  by (simp add: index_in_range_def nextImage_index)

lemma prevImage_in_range: "index_in_range w \<Longrightarrow> index_in_range (snd (prevImage w))"
  by (simp add: index_in_range_def prevImage_index)

lemma navigate_in_range:
  "index_in_range w \<Longrightarrow> fst (navigate a w) = None \<and> index_in_range (snd (navigate a w))"
  by (cases a)
    (simp_all add: nextImage_returns prevImage_returns nextImage_in_range prevImage_in_range)

lemma session_in_range:
  "index_in_range w \<Longrightarrow>
     fst (session navs w) = None \<and> index_in_range (snd (session navs w))"
proof (induction navs arbitrary: w)
  case Nil
  then show ?case by simp
next
  case (Cons a navs)
  from Cons.prems have step: "fst (navigate a w) = None" "index_in_range (snd (navigate a w))"
    using navigate_in_range by blast+
  have "session (a # navs) w = session navs (snd (navigate a w))"
    using pair_of_returns [OF step(1)] by (metis and_then_None session.simps(2))
  with Cons.IH [OF step(2)] show ?case by simp
qed

subsection \<open>Opening and closing\<close>

lemma openLightbox_returns:
  "0 \<le> k \<Longrightarrow> k < int (length (images w)) \<Longrightarrow> fst (openLightbox k w) = None"
  by (simp add: openLightbox_def updateLightboxImage_def at_index_def Let_def)

lemma openLightbox_index:
  "0 \<le> k \<Longrightarrow> k < int (length (images w)) \<Longrightarrow>
     currentImageIndex (snd (openLightbox k w)) = k"
  by (simp add: openLightbox_def updateLightboxImage_def at_index_def Let_def
      setupTouchNavigation_def)

lemma openLightbox_images:
  "0 \<le> k \<Longrightarrow> k < int (length (images w)) \<Longrightarrow> images (snd (openLightbox k w)) = images w"
  by (simp add: openLightbox_def updateLightboxImage_def at_index_def Let_def
      setupTouchNavigation_def)

lemma openLightbox_exists:
  "0 \<le> k \<Longrightarrow> k < int (length (images w)) \<Longrightarrow> lightboxes (snd (openLightbox k w)) \<noteq> []"
  by (simp add: openLightbox_def updateLightboxImage_def at_index_def Let_def
      setupTouchNavigation_def update_node_def)

lemma openLightbox_shows:
  assumes "0 \<le> k" "k < int (length (images w))"
  shows "caption (last (lightboxes (snd (openLightbox k w)))) = name (images w ! nat k)"
    and "counter (last (lightboxes (snd (openLightbox k w)))) =
           decimal (nat k + 1) @ '' / '' @ decimal (length (images w))"
    and "(prev_display (last (lightboxes (snd (openLightbox k w)))) = ''none'') = (k = 0)"
    and "(next_display (last (lightboxes (snd (openLightbox k w)))) = ''none'') =
           (k = int (length (images w)) - 1)"
  using assms
  by (simp_all add: openLightbox_def updateLightboxImage_def at_index_def Let_def
      setupTouchNavigation_def update_node_def string_of_int_def nat_add_distrib)

lemma closeLightbox_images [simp]: "images (snd (closeLightbox w)) = images w"
  by (simp add: closeLightbox_def split: option.splits)

lemma closeLightbox_returns [simp]: "fst (closeLightbox w) = None"
  by (simp add: closeLightbox_def split: option.splits)

lemma fire_images [simp]: "images (fire t w) = images w"
  by (cases t) (simp_all split: view.splits)

subsection \<open>A session with one lightbox\<close>

lemma openLightbox_single:
  "0 \<le> k \<Longrightarrow> k < int (length (images w)) \<Longrightarrow> lightboxes w = [] \<Longrightarrow>
     single_lightbox_ok (snd (openLightbox k w))"
  by (simp add: single_lightbox_ok_def buttons_match_def lb_defs)

lemma update_single:
  "0 \<le> i \<Longrightarrow> i < int (length (images w)) \<Longrightarrow> lightboxes w = [l] \<Longrightarrow>
     single_lightbox_ok (snd (updateLightboxImage None (w\<lparr>currentImageIndex := i\<rparr>)))"
  by (simp add: single_lightbox_ok_def buttons_match_def lb_defs)

lemma nextImage_single: "single_lightbox_ok w \<Longrightarrow> single_lightbox_ok (snd (nextImage w))"
proof -
  assume a: "single_lightbox_ok w"
  then obtain l where l: "lightboxes w = [l]"
    by (auto simp: single_lightbox_ok_def split: list.splits)
  from a have r: "index_in_range w" by (simp add: single_lightbox_ok_def)
  show ?thesis
  proof (cases "currentImageIndex w < int (length (images w)) - 1")
    case True
    with r l update_single [where w = w and i = "currentImageIndex w + 1" and l = l]
    show ?thesis
      by (simp add: nextImage_def index_in_range_def)
  next
    case False
    with a show ?thesis by (simp add: nextImage_def)
  qed
qed

lemma prevImage_single: "single_lightbox_ok w \<Longrightarrow> single_lightbox_ok (snd (prevImage w))"
proof -
  assume a: "single_lightbox_ok w"
  then obtain l where l: "lightboxes w = [l]"
    by (auto simp: single_lightbox_ok_def split: list.splits)
  from a have r: "index_in_range w" by (simp add: single_lightbox_ok_def)
  show ?thesis
  proof (cases "currentImageIndex w > 0")
    case True
    with r l update_single [where w = w and i = "currentImageIndex w - 1" and l = l]
    show ?thesis
      by (simp add: prevImage_def index_in_range_def)
  next
    case False
    with a show ?thesis by (simp add: prevImage_def)
  qed
qed

lemma session_single:
  "single_lightbox_ok w \<Longrightarrow> single_lightbox_ok (snd (session navs w))"
proof (induction navs arbitrary: w)
  case Nil
  then show ?case by simp
next
  case (Cons a navs)
  from Cons.prems have r: "index_in_range w" by (simp add: single_lightbox_ok_def)
  have s: "single_lightbox_ok (snd (navigate a w))"
    using Cons.prems by (cases a) (simp_all add: nextImage_single prevImage_single)
  have "fst (navigate a w) = None" using navigate_in_range [OF r] by simp
  then have "session (a # navs) w = session navs (snd (navigate a w))"
    using pair_of_returns by (metis and_then_None session.simps(2))
  with Cons.IH [OF s] show ?case by simp
qed

subsection \<open>Touch listeners\<close>

lemma find_update_node:
  assumes "\<And>x. node (f x) = node x"
  shows "find (\<lambda>l. node l = n) (update_node n f ls) = map_option f (find (\<lambda>l. node l = n) ls)"
  using assms by (induction ls) (simp_all add: update_node_def)

lemma find_node_present:
  "n \<in> node ` set ls \<Longrightarrow> \<exists>l. find (\<lambda>l. node l = n) ls = Some l"
  by (induction ls) auto

lemma touch_gesture:
  assumes "n \<in> node ` set (lightboxes w)"
  shows "touchend n t1 (snd (touchstart n t0 w)) =
           handleSwipe (screenX t0) (screenX t1) (touch_recorded n (screenX t0) (screenX t1) w)"
proof -
  from assms obtain l where l: "find (\<lambda>l. node l = n) (lightboxes w) = Some l"
    using find_node_present by blast
  have "find (\<lambda>l. node l = n)
          (update_node n (\<lambda>l. l\<lparr>touchStartX := screenX t0\<rparr>) (lightboxes w)) =
        Some (l\<lparr>touchStartX := screenX t0\<rparr>)"
    using l by (simp add: find_update_node)
  then show ?thesis
    by (simp add: touchend_def touchstart_def touch_recorded_def)
qed

lemma touch_gesture_absent:
  assumes "n \<notin> node ` set (lightboxes w)"
  shows "touchend n t1 (snd (touchstart n t0 w)) =
           (None, w\<lparr>lightboxes :=
              update_node n (\<lambda>l. l\<lparr>touchStartX := screenX t0\<rparr>) (lightboxes w)\<rparr>)"
proof -
  have "find (\<lambda>l. node l = n) (lightboxes w) = None"
    using assms by (auto simp: find_None_iff)
  then have "find (\<lambda>l. node l = n)
          (update_node n (\<lambda>l. l\<lparr>touchStartX := screenX t0\<rparr>) (lightboxes w)) = None"
    by (simp add: find_update_node)
  then show ?thesis by (simp add: touchend_def touchstart_def)
qed

lemma touch_recorded_index [simp]:
  "currentImageIndex (touch_recorded n x0 x1 w) = currentImageIndex w"
  by (simp add: touch_recorded_def)

lemma touch_recorded_images [simp]: "images (touch_recorded n x0 x1 w) = images w"
  by (simp add: touch_recorded_def)

subsection \<open>The grid\<close>

lemma renderGallery_items:
  "container (renderGallery w) =
     GridView (map (\<lambda>(index, x). createImageItem x (int index)) (enumerate 0 (images w)))"
  by (simp add: renderGallery_def)

lemma grid_alt:
  "map alt (map (\<lambda>(index, x). createImageItem x (int index)) (enumerate m xs)) = map name xs"
  by (induction xs arbitrary: m) (simp_all add: createImageItem_def)

lemma grid_src:
  "map data_src (map (\<lambda>(index, x). createImageItem x (int index)) (enumerate m xs)) =
     map (\<lambda>x. replace apiUrl ''/gallery'' '''' @ ''/image/'' @ id' x @ ''?size=s800'') xs"
  by (induction xs arbitrary: m) (simp_all add: createImageItem_def)

lemma renderGallery_images [simp]: "images (renderGallery w) = images w"
  by (simp add: renderGallery_def)

lemma click_rendered_item:
  "k < length (images w) \<Longrightarrow>
     click_item k (renderGallery w) = openLightbox (int k) (renderGallery w)"
  by (simp add: click_item_def renderGallery_items nth_enumerate_eq createImageItem_def)

lemma setupLazyLoading_grid:
  "container w = GridView items \<Longrightarrow>
     \<exists>items'. container (setupLazyLoading w) = GridView items' \<and>
        length items' = length items \<and> map alt items' = map alt items"
  by (simp add: setupLazyLoading_def comp_def)

lemma constructor_fetches:
  "f \<noteq> [] \<Longrightarrow> container (constructor (Some f) cols page) = LoadingView \<and>
     requests (constructor (Some f) cols page) = requests page @ [apiUrl @ ''/'' @ f]"
  by (simp add: constructor_def init_begin_def showLoading_def Let_def)

lemma field_error_truthy_obj:
  "field data k = Inr err \<Longrightarrow> truthy err \<Longrightarrow> \<exists>kvs. data = JObj kvs"
  by (cases data) auto

section \<open>Lightbox navigation\<close>

text \<open>
  Claim C1. In a lightbox state, where the index is within the list of \<open>N\<close> images,
  \<open>nextImage\<close> leaves the index unchanged at \<open>N - 1\<close> (and the whole page with it)
  and otherwise adds one; \<open>prevImage\<close> leaves it unchanged at \<open>0\<close> and otherwise
  subtracts one. Neither call throws, and neither wraps around.
\<close>

theorem navigation_steps_without_wraparound:
  "index_in_range w \<Longrightarrow>
     currentImageIndex (snd (nextImage w)) =
       (if currentImageIndex w = int (length (images w)) - 1 then currentImageIndex w
        else currentImageIndex w + 1) \<and>
     currentImageIndex (snd (prevImage w)) =
       (if currentImageIndex w = 0 then currentImageIndex w else currentImageIndex w - 1) \<and>
     (currentImageIndex w = int (length (images w)) - 1 \<longrightarrow> nextImage w = (None, w)) \<and>
     (currentImageIndex w = 0 \<longrightarrow> prevImage w = (None, w)) \<and>
     fst (nextImage w) = None \<and> fst (prevImage w) = None"
  by (auto simp: nextImage_index prevImage_index index_in_range_def nextImage_def prevImage_def
      update_returns)

theorem navigation_steps_without_wraparound_witness:
  "index_in_range (snd (openLightbox 1 gallery_F1)) \<and>
   currentImageIndex (snd (nextImage (snd (openLightbox 1 gallery_F1)))) = 1 \<and>
   currentImageIndex (snd (prevImage (snd (openLightbox 1 gallery_F1)))) = 0 \<and>
   nextImage (snd (openLightbox 1 gallery_F1)) = (None, snd (openLightbox 1 gallery_F1))"
proof -
  have r: "index_in_range (snd (openLightbox 1 gallery_F1))"
    by (simp add: lb_defs ex_defs)
  have i: "currentImageIndex (snd (openLightbox 1 gallery_F1)) = 1"
    "length (images (snd (openLightbox 1 gallery_F1))) = 2"
    by (simp_all add: lb_defs ex_defs)
  show ?thesis using r navigation_steps_without_wraparound [OF r] by (simp add: i)
qed

text \<open>
  Claim C2. \<open>openLightbox(index)\<close> with \<open>0 <= index < images.length\<close> returns, leaves
  a lightbox in the document and establishes \<open>0 <= currentImageIndex < images.length\<close>;
  \<open>nextImage\<close> and \<open>prevImage\<close> preserve it; so it holds, and nothing throws, after
  any sequence of navigation calls of the session.
\<close>

theorem index_invariant:
  "(0 \<le> index \<and> index < int (length (images w)) \<longrightarrow>
      fst (openLightbox index w) = None \<and>
      lightboxes (snd (openLightbox index w)) \<noteq> [] \<and>
      index_in_range (snd (openLightbox index w)) \<and>
      fst (session navs (snd (openLightbox index w))) = None \<and>
      index_in_range (snd (session navs (snd (openLightbox index w))))) \<and>
   (index_in_range w \<longrightarrow>
      index_in_range (snd (nextImage w)) \<and> index_in_range (snd (prevImage w)))"
proof (intro conjI impI)
  assume a: "0 \<le> index \<and> index < int (length (images w))"
  show "fst (openLightbox index w) = None" using a by (simp add: openLightbox_returns)
  show "lightboxes (snd (openLightbox index w)) \<noteq> []" using a by (simp add: openLightbox_exists)
  show r: "index_in_range (snd (openLightbox index w))"
    using a by (simp add: index_in_range_def openLightbox_index openLightbox_images)
  show "fst (session navs (snd (openLightbox index w))) = None"
    using session_in_range [OF r] by simp
  show "index_in_range (snd (session navs (snd (openLightbox index w))))"
    using session_in_range [OF r] by simp
next
  assume "index_in_range w"
  then show "index_in_range (snd (nextImage w))" by (rule nextImage_in_range)
next
  assume "index_in_range w"
  then show "index_in_range (snd (prevImage w))" by (rule prevImage_in_range)
qed

theorem index_invariant_witness:
  "fst (openLightbox 0 gallery_F1) = None \<and>
   index_in_range (snd (openLightbox 0 gallery_F1)) \<and>
   fst (session [Next, Next, Prev] (snd (openLightbox 0 gallery_F1))) = None \<and>
   index_in_range (snd (session [Next, Next, Prev] (snd (openLightbox 0 gallery_F1)))) \<and>
   index_in_range (snd (nextImage (snd (openLightbox 0 gallery_F1)))) \<and>
   index_in_range (snd (prevImage (snd (openLightbox 0 gallery_F1))))"
proof -
  have a: "(0::int) \<le> 0 \<and> 0 < int (length (images gallery_F1))"
    by (simp add: ex_defs)
  show ?thesis
    using a index_invariant [of 0 gallery_F1 "[Next, Next, Prev]"]
      index_invariant [of 0 "snd (openLightbox 0 gallery_F1)" "[]"]
    by simp
qed

text \<open>
  Claim C4. When \<open>updateLightboxImage\<close> renders a lightbox for a valid index over \<open>N\<close>
  images, the previous button of that lightbox is hidden (\<open>display: none\<close>) if and
  only if the index is \<open>0\<close>, and the next button if and only if the index is \<open>N - 1\<close>.
  Hence, in a session opened on a document without lightbox, the one lightbox shows
  its buttons in this way after every sequence of navigation calls.
\<close>

theorem navigation_buttons_hidden_at_the_ends:
  "(index_in_range w \<and>
    (case arg of None \<Rightarrow> query_lightbox w | Some n \<Rightarrow> Some n) = Some n \<and>
    l \<in> set (lightboxes (snd (updateLightboxImage arg w))) \<and> node l = n \<longrightarrow>
      ((prev_display l = ''none'') = (currentImageIndex w = 0)) \<and>
      ((next_display l = ''none'') = (currentImageIndex w = int (length (images w)) - 1))) \<and>
   (0 \<le> k \<and> k < int (length (images v)) \<and> lightboxes v = [] \<longrightarrow>
      single_lightbox_ok (snd (session navs (snd (openLightbox k v)))))"
proof (intro conjI impI)
  assume a: "index_in_range w \<and>
    (case arg of None \<Rightarrow> query_lightbox w | Some n \<Rightarrow> Some n) = Some n \<and>
    l \<in> set (lightboxes (snd (updateLightboxImage arg w))) \<and> node l = n"
  then have at: "at_index (images w) (currentImageIndex w) =
      Some (images w ! nat (currentImageIndex w))"
    by (simp add: index_in_range_def at_index_def)
  define f where "f = (\<lambda>l::lightbox. l\<lparr>img_opacity := ''0'',
       img_src := replace apiUrl ''/gallery'' '''' @ ''/image/'' @
                  id' (images w ! nat (currentImageIndex w)) @ ''?size=s2000'',
       img_alt := name (images w ! nat (currentImageIndex w)),
       caption := name (images w ! nat (currentImageIndex w)),
       counter := string_of_int (currentImageIndex w + 1) @ '' / '' @
                  decimal (length (images w)),
       prev_display := (if currentImageIndex w = 0 then ''none'' else ''flex''),
       next_display := (if currentImageIndex w = int (length (images w)) - 1
                        then ''none'' else ''flex'')\<rparr>)"
  have "lightboxes (snd (updateLightboxImage arg w)) = update_node n f (lightboxes w)"
    using a at by (simp add: updateLightboxImage_def f_def)
  with a have "l \<in> set (update_node n f (lightboxes w))" by simp
  moreover have "\<And>x. node (f x) = node x" by (simp add: f_def)
  ultimately obtain x where x: "l = f x"
    using in_update_node [of l n f "lightboxes w"] a by blast
  from x show "(prev_display l = ''none'') = (currentImageIndex w = 0)"
    by (simp add: f_def)
  from x show "(next_display l = ''none'') = (currentImageIndex w = int (length (images w)) - 1)"
    by (simp add: f_def)
next
  assume "0 \<le> k \<and> k < int (length (images v)) \<and> lightboxes v = []"
  then have "single_lightbox_ok (snd (openLightbox k v))"
    by (simp add: openLightbox_single)
  then show "single_lightbox_ok (snd (session navs (snd (openLightbox k v))))"
    by (rule session_single)
qed

theorem navigation_buttons_hidden_at_the_ends_witness:
  "index_in_range (snd (openLightbox 1 gallery_F1)) \<and>
   query_lightbox (snd (openLightbox 1 gallery_F1)) = Some 0 \<and>
   node (hd (lightboxes (snd (updateLightboxImage None (snd (openLightbox 1 gallery_F1)))))) = 0 \<and>
   prev_display (hd (lightboxes (snd (updateLightboxImage None (snd (openLightbox 1 gallery_F1))))))
     \<noteq> ''none'' \<and>
   next_display (hd (lightboxes (snd (updateLightboxImage None (snd (openLightbox 1 gallery_F1))))))
     = ''none'' \<and>
   lightboxes gallery_F1 = [] \<and>
   single_lightbox_ok (snd (session [Next, Prev, Prev] (snd (openLightbox 1 gallery_F1))))"
proof -
  let ?w = "snd (openLightbox 1 gallery_F1)"
  let ?l = "hd (lightboxes (snd (updateLightboxImage None ?w)))"
  have r: "index_in_range ?w" by (simp add: lb_defs ex_defs)
  have q0: "query_lightbox ?w = Some 0" by (simp add: lb_defs ex_defs)
  then have q: "(case None of None \<Rightarrow> query_lightbox ?w | Some n \<Rightarrow> Some n) = Some 0"
    by simp
  have m: "?l \<in> set (lightboxes (snd (updateLightboxImage None ?w)))"
    by (simp add: lb_defs ex_defs)
  have n: "node ?l = 0" by (simp add: lb_defs ex_defs)
  have i: "currentImageIndex ?w = 1" "length (images ?w) = 2"
    by (simp_all add: lb_defs ex_defs)
  have e: "lightboxes gallery_F1 = []" by (simp add: ex_defs)
  have g: "(0::int) \<le> 1 \<and> 1 < int (length (images gallery_F1)) \<and> lightboxes gallery_F1 = []"
    by (simp add: ex_defs)
  have one: "((prev_display ?l = ''none'') = (currentImageIndex ?w = 0)) \<and>
      ((next_display ?l = ''none'') = (currentImageIndex ?w = int (length (images ?w)) - 1))"
    using r q m n
      navigation_buttons_hidden_at_the_ends
        [where w = ?w and arg = None and n = 0 and l = ?l and k = 1 and v = gallery_F1
           and navs = "[Next, Prev, Prev]"]
    by blast
  have two: "single_lightbox_ok (snd (session [Next, Prev, Prev] ?w))"
    using g
      navigation_buttons_hidden_at_the_ends
        [where w = ?w and arg = None and n = 0 and l = ?l and k = 1 and v = gallery_F1
           and navs = "[Next, Prev, Prev]"]
    by blast
  from one have three: "prev_display ?l \<noteq> ''none''" "next_display ?l = ''none''"
    by (simp_all add: i)
  from r q0 n three e two show ?thesis by blast
qed

text \<open>
  Claim C9. For every valid index \<open>k\<close>, \<open>closeLightbox()\<close> followed by
  \<open>openLightbox(k)\<close> returns with \<open>currentImageIndex = k\<close> and a new lightbox showing
  image \<open>k\<close>, whatever the index was before, and whether or not a pending timer (such
  as the delayed removal of the closed lightbox) has run in between.
\<close>

theorem close_then_open:
  "0 \<le> k \<and> k < int (length (images w)) \<longrightarrow>
     fst (closeLightbox w) = None \<and>
     fst (openLightbox k (snd (closeLightbox w))) = None \<and>
     currentImageIndex (snd (openLightbox k (snd (closeLightbox w)))) = k \<and>
     caption (last (lightboxes (snd (openLightbox k (snd (closeLightbox w)))))) =
       name (images w ! nat k) \<and>
     fst (openLightbox k (fire t (snd (closeLightbox w)))) = None \<and>
     currentImageIndex (snd (openLightbox k (fire t (snd (closeLightbox w))))) = k \<and>
     caption (last (lightboxes (snd (openLightbox k (fire t (snd (closeLightbox w))))))) =
       name (images w ! nat k)"
proof
  assume a: "0 \<le> k \<and> k < int (length (images w))"
  then have r1: "0 \<le> k" "k < int (length (images (snd (closeLightbox w))))" by simp_all
  from a have r2: "0 \<le> k" "k < int (length (images (fire t (snd (closeLightbox w)))))"
    by simp_all
  show "fst (closeLightbox w) = None \<and>
     fst (openLightbox k (snd (closeLightbox w))) = None \<and>
     currentImageIndex (snd (openLightbox k (snd (closeLightbox w)))) = k \<and>
     caption (last (lightboxes (snd (openLightbox k (snd (closeLightbox w)))))) =
       name (images w ! nat k) \<and>
     fst (openLightbox k (fire t (snd (closeLightbox w)))) = None \<and>
     currentImageIndex (snd (openLightbox k (fire t (snd (closeLightbox w))))) = k \<and>
     caption (last (lightboxes (snd (openLightbox k (fire t (snd (closeLightbox w))))))) =
       name (images w ! nat k)"
    using openLightbox_returns [OF r1] openLightbox_index [OF r1] openLightbox_shows(1) [OF r1]
      openLightbox_returns [OF r2] openLightbox_index [OF r2] openLightbox_shows(1) [OF r2]
    by simp
qed

theorem close_then_open_witness:
  "(0::int) \<le> 1 \<and> 1 < int (length (images (snd (openLightbox 0 gallery_F1)))) \<and>
   currentImageIndex (snd (openLightbox 0 gallery_F1)) = 0 \<and>
   currentImageIndex
     (snd (openLightbox 1 (snd (closeLightbox (snd (openLightbox 0 gallery_F1)))))) = 1 \<and>
   caption (last (lightboxes
     (snd (openLightbox 1 (snd (closeLightbox (snd (openLightbox 0 gallery_F1)))))))) = ''Dog'' \<and>
   currentImageIndex
     (snd (openLightbox 1 (fire (RemoveLightbox 0)
        (snd (closeLightbox (snd (openLightbox 0 gallery_F1))))))) = 1"
proof -
  have a: "(0::int) \<le> 1 \<and> 1 < int (length (images (snd (openLightbox 0 gallery_F1))))"
    by (simp add: lb_defs ex_defs)
  have i: "currentImageIndex (snd (openLightbox 0 gallery_F1)) = 0"
    "images (snd (openLightbox 0 gallery_F1)) = cat_and_dog"
    by (simp_all add: lb_defs ex_defs)
  show ?thesis
    using a close_then_open [of 1 "snd (openLightbox 0 gallery_F1)" "RemoveLightbox 0"]
    by (simp add: i cat_and_dog_def)
qed

text \<open>
  Claim C10. With no lightbox element in the document, \<open>closeLightbox()\<close> and
  \<open>updateLightboxImage()\<close> return at once without throwing and leave everything as it
  was: the keyboard listeners, the scroll setting of the page, the pending timers and
  the state of the gallery.
\<close>

theorem no_lightbox_no_effect:
  "lightboxes w = [] \<longrightarrow>
     closeLightbox w = (None, w) \<and> updateLightboxImage None w = (None, w)"
  by (simp add: closeLightbox_def updateLightboxImage_def query_lightbox_def)

theorem no_lightbox_no_effect_witness:
  "lightboxes gallery_F1 = [] \<and>
   closeLightbox gallery_F1 = (None, gallery_F1) \<and>
   updateLightboxImage None gallery_F1 = (None, gallery_F1)"
proof -
  have e: "lightboxes gallery_F1 = []" by (simp add: ex_defs)
  show ?thesis using e no_lightbox_no_effect [of gallery_F1] by simp
qed

section \<open>Image Fetcher\<close>

text \<open>
  Claim C3, as the code has it. \<open>fetchImages\<close> fails with \<open>Error("API error: <status>")\<close>
  for every response whose status is outside 200..299. For a success status and a body
  whose \<open>error\<close> property is truthy it fails with an \<open>Error\<close> carrying the body's
  \<open>message\<close> when that is truthy and \<open>'Unknown error'\<close> otherwise. For a success
  status and a body other than \<open>null\<close> whose \<open>error\<close> property is absent or falsy it
  returns the parsed body unchanged; in particular it returns every JSON array, the
  empty one included.
\<close>

theorem fetchImages_outcomes:
  "(\<not> ok r \<longrightarrow>
      fetchImages (Resolved r) = Inl (Error (JStr (''API error: '' @ decimal (status r))))) \<and>
   (ok r \<and> body r = Some data \<and> field data ''error'' = Inr err \<and> truthy err \<longrightarrow>
      (\<exists>msg. field data ''message'' = Inr msg \<and>
         fetchImages (Resolved r) = Inl (Error (or_else msg (JStr ''Unknown error''))))) \<and>
   (ok r \<and> body r = Some data \<and> field data ''error'' = Inr err \<and> \<not> truthy err \<longrightarrow>
      fetchImages (Resolved r) = Inr data) \<and>
   (ok r \<and> body r = Some (JArr xs) \<longrightarrow> fetchImages (Resolved r) = Inr (JArr xs))"
proof (intro conjI impI)
  assume "\<not> ok r"
  then show "fetchImages (Resolved r) = Inl (Error (JStr (''API error: '' @ decimal (status r))))"
    by (simp add: fetchImages_def)
next
  assume a: "ok r \<and> body r = Some data \<and> field data ''error'' = Inr err \<and> truthy err"
  then obtain kvs where "data = JObj kvs" using field_error_truthy_obj by blast
  with a show "\<exists>msg. field data ''message'' = Inr msg \<and>
         fetchImages (Resolved r) = Inl (Error (or_else msg (JStr ''Unknown error'')))"
    by (simp add: fetchImages_def)
next
  assume "ok r \<and> body r = Some data \<and> field data ''error'' = Inr err \<and> \<not> truthy err"
  then show "fetchImages (Resolved r) = Inr data"
    by (simp add: fetchImages_def)
next
  assume "ok r \<and> body r = Some (JArr xs)"
  then show "fetchImages (Resolved r) = Inr (JArr xs)"
    by (simp add: fetchImages_def)
qed

theorem fetchImages_outcomes_witness:
  "\<not> ok \<lparr>status = 404, body = None\<rparr> \<and>
   fetchImages (Resolved \<lparr>status = 404, body = None\<rparr>) = Inl (Error (JStr ''API error: 404'')) \<and>
   fetchImages (Resolved \<lparr>status = 200,
      body = Some (JObj [(''error'', JBool True), (''message'', JStr ''quota'')])\<rparr>) =
     Inl (Error (JStr ''quota'')) \<and>
   fetchImages (Resolved \<lparr>status = 200, body = Some (JObj [(''error'', JBool True)])\<rparr>) =
     Inl (Error (JStr ''Unknown error'')) \<and>
   fetchImages (Resolved \<lparr>status = 200, body = Some (JObj [(''error'', JNull)])\<rparr>) =
     Inr (JObj [(''error'', JNull)]) \<and>
   fetchImages (Resolved \<lparr>status = 200, body = Some (JArr [])\<rparr>) = Inr (JArr [])"
proof -
  have d: "decimal 404 = ''404''" by code_simp
  show ?thesis
    using
      fetchImages_outcomes [of "\<lparr>status = 404, body = None\<rparr>" JNull None "[]"]
      fetchImages_outcomes [of "\<lparr>status = 200,
        body = Some (JObj [(''error'', JBool True), (''message'', JStr ''quota'')])\<rparr>"
        "JObj [(''error'', JBool True), (''message'', JStr ''quota'')]" "Some (JBool True)" "[]"]
      fetchImages_outcomes [of "\<lparr>status = 200, body = Some (JObj [(''error'', JBool True)])\<rparr>"
        "JObj [(''error'', JBool True)]" "Some (JBool True)" "[]"]
      fetchImages_outcomes [of "\<lparr>status = 200, body = Some (JObj [(''error'', JNull)])\<rparr>"
        "JObj [(''error'', JNull)]" "Some JNull" "[]"]
      fetchImages_outcomes [of "\<lparr>status = 200, body = Some (JArr [])\<rparr>" "JArr []" None "[]"]
    by (simp add: ok_def d)
qed

text \<open>
  The claim as written fails: the body \<open>{"error": false}\<close> of a 200 answer contains
  an \<open>error\<close> field, and \<open>fetchImages\<close> returns it.
\<close>

theorem fetchImages_falsy_error_field:
  "field (JObj [(''error'', JBool False)]) ''error'' = Inr (Some (JBool False)) \<and>
   ok \<lparr>status = 200, body = Some (JObj [(''error'', JBool False)])\<rparr> \<and>
   fetchImages (Resolved \<lparr>status = 200, body = Some (JObj [(''error'', JBool False)])\<rparr>) =
     Inr (JObj [(''error'', JBool False)])"
  by (simp add: fetchImages_def ok_def)

section \<open>Grid Renderer\<close>

text \<open>
  Claim C5. For a list of \<open>N\<close> images, \<open>renderGallery\<close> fills the container with a grid
  of exactly \<open>N\<close> items that carry the names and the thumbnail URLs of the images in
  the order of the list; the click listener of item \<open>k\<close> (for every \<open>k < N\<close>) opens the
  lightbox without throwing, with \<open>currentImageIndex = k\<close>, the caption of image \<open>k\<close>
  and the counter text \<open>k+1 / N\<close>.
\<close>

theorem grid_in_fetch_order_and_click_opens:
  "(case container (renderGallery w) of
      GridView items \<Rightarrow>
        length items = length (images w) \<and>
        map alt items = map name (images w) \<and>
        map data_src items =
          map (\<lambda>x. replace apiUrl ''/gallery'' '''' @ ''/image/'' @ id' x @ ''?size=s800'')
            (images w) \<and>
        (\<forall>k < length (images w). click_index (items ! k) = int k)
    | _ \<Rightarrow> False) \<and>
   (\<forall>k < length (images w).
      fst (click_item k (renderGallery w)) = None \<and>
      currentImageIndex (snd (click_item k (renderGallery w))) = int k \<and>
      caption (last (lightboxes (snd (click_item k (renderGallery w))))) = name (images w ! k) \<and>
      counter (last (lightboxes (snd (click_item k (renderGallery w))))) =
        decimal (k + 1) @ '' / '' @ decimal (length (images w)))"
proof (intro conjI allI impI)
  show "case container (renderGallery w) of
      GridView items \<Rightarrow>
        length items = length (images w) \<and>
        map alt items = map name (images w) \<and>
        map data_src items =
          map (\<lambda>x. replace apiUrl ''/gallery'' '''' @ ''/image/'' @ id' x @ ''?size=s800'')
            (images w) \<and>
        (\<forall>k < length (images w). click_index (items ! k) = int k)
    | _ \<Rightarrow> False"
  proof -
    let ?items = "map (\<lambda>(index, x). createImageItem x (int index)) (enumerate 0 (images w))"
    have c: "container (renderGallery w) = GridView ?items" by (rule renderGallery_items)
    have 1: "length ?items = length (images w)" by simp
    have 2: "map alt ?items = map name (images w)" by (rule grid_alt)
    have 3: "map data_src ?items =
        map (\<lambda>x. replace apiUrl ''/gallery'' '''' @ ''/image/'' @ id' x @ ''?size=s800'')
          (images w)"
      by (rule grid_src)
    have 4: "\<forall>k < length (images w). click_index (?items ! k) = int k"
      by (simp add: nth_enumerate_eq createImageItem_def)
    show ?thesis unfolding c view.case using 1 2 3 4 by blast
  qed
next
  fix k assume k: "k < length (images w)"
  then have r: "0 \<le> int k" "int k < int (length (images (renderGallery w)))" by simp_all
  have c: "click_item k (renderGallery w) = openLightbox (int k) (renderGallery w)"
    using k by (rule click_rendered_item)
  show "fst (click_item k (renderGallery w)) = None"
    using openLightbox_returns [OF r] by (simp add: c)
  show "currentImageIndex (snd (click_item k (renderGallery w))) = int k"
    using openLightbox_index [OF r] by (simp add: c)
  show "caption (last (lightboxes (snd (click_item k (renderGallery w))))) = name (images w ! k)"
    using openLightbox_shows(1) [OF r] by (simp add: c)
  show "counter (last (lightboxes (snd (click_item k (renderGallery w))))) =
        decimal (k + 1) @ '' / '' @ decimal (length (images w))"
    using openLightbox_shows(2) [OF r] by (simp add: c)
qed

theorem grid_in_fetch_order_and_click_opens_witness:
  "(1::nat) < length (images gallery_F1) \<and>
   fst (click_item 1 (renderGallery gallery_F1)) = None \<and>
   currentImageIndex (snd (click_item 1 (renderGallery gallery_F1))) = 1 \<and>
   caption (last (lightboxes (snd (click_item 1 (renderGallery gallery_F1))))) = ''Dog'' \<and>
   counter (last (lightboxes (snd (click_item 1 (renderGallery gallery_F1))))) = ''2 / 2''"
proof -
  have k: "(1::nat) < length (images gallery_F1)" by (simp add: ex_defs)
  have n: "length (images gallery_F1) = 2" "name (images gallery_F1 ! Suc 0) = ''Dog''"
    by (simp_all add: ex_defs)
  have d: "decimal (Suc (Suc 0)) = ''2''" "decimal 2 = ''2''"
    by (simp_all add: decimal_digit)
  from grid_in_fetch_order_and_click_opens [of gallery_F1]
  have "\<forall>k < length (images gallery_F1).
      fst (click_item k (renderGallery gallery_F1)) = None \<and>
      currentImageIndex (snd (click_item k (renderGallery gallery_F1))) = int k \<and>
      caption (last (lightboxes (snd (click_item k (renderGallery gallery_F1))))) =
        name (images gallery_F1 ! k) \<and>
      counter (last (lightboxes (snd (click_item k (renderGallery gallery_F1))))) =
        decimal (k + 1) @ '' / '' @ decimal (length (images gallery_F1))"
    by (rule conjunct2)
  from this [rule_format, OF k] k show ?thesis by (simp add: n d)
qed

section \<open>Gallery Instance\<close>

text \<open>
  Claim C6. When the container has no folder-id attribute, the constructor shows the
  error state with the message about the missing attribute and returns: the loading
  state of \<open>init\<close> is never shown, no request is sent, nothing is logged, and the
  image list stays empty.
\<close>

theorem missing_folder_id_no_fetch:
  "container (constructor None cols page) = ErrorView ''Missing data-folder-id attribute'' \<and>
   requests (constructor None cols page) = requests page \<and>
   images (constructor None cols page) = [] \<and>
   console (constructor None cols page) = console page"
  by (simp add: constructor_def showError_def Let_def)

text \<open>
  Claim C7. In every run of \<open>init\<close>: when \<open>fetchImages\<close> fails, for whatever reason,
  the error is logged and the container shows the one generic message, which does not
  depend on the error; when it returns the empty list, the container shows the empty
  state, which has no grid item; when it returns a non-empty list of image descriptors,
  the container shows the grid of these images.
\<close>

theorem init_outcomes:
  "(fetchImages net = Inl e \<longrightarrow>
      (case init net w of
         None \<Rightarrow> False
       | Some w' \<Rightarrow>
           container w' = ErrorView ''Failed to load gallery. Please try again later.'' \<and>
           console w' = console w @ [e])) \<and>
   (fetchImages net = Inr data \<and> as_images data = Some [] \<longrightarrow>
      (case init net w of
         None \<Rightarrow> False
       | Some w' \<Rightarrow> container w' = EmptyView \<and> images w' = [])) \<and>
   (fetchImages net = Inr data \<and> as_images data = Some fetched \<and> fetched \<noteq> [] \<longrightarrow>
      (case init net w of
         None \<Rightarrow> False
       | Some w' \<Rightarrow>
           (case container w' of
              GridView items \<Rightarrow>
                length items = length fetched \<and> map alt items = map name fetched
            | _ \<Rightarrow> False) \<and>
           images w' = fetched))"
proof (intro conjI impI)
  assume "fetchImages net = Inl e"
  then show "case init net w of
         None \<Rightarrow> False
       | Some w' \<Rightarrow>
           container w' = ErrorView ''Failed to load gallery. Please try again later.'' \<and>
           console w' = console w @ [e]"
    by (simp add: init_def init_resume_def init_begin_def showError_def showLoading_def)
next
  assume "fetchImages net = Inr data \<and> as_images data = Some []"
  then show "case init net w of
         None \<Rightarrow> False
       | Some w' \<Rightarrow> container w' = EmptyView \<and> images w' = []"
    by (simp add: init_def init_resume_def showEmpty_def)
next
  assume a: "fetchImages net = Inr data \<and> as_images data = Some fetched \<and> fetched \<noteq> []"
  define w1 where "w1 = (init_begin w)\<lparr>images := fetched\<rparr>"
  have i: "init net w = Some (setupLazyLoading (renderGallery w1))"
    using a by (simp add: init_def init_resume_def w1_def)
  have g: "container (renderGallery w1) =
      GridView (map (\<lambda>(index, x). createImageItem x (int index)) (enumerate 0 fetched))"
    by (simp add: renderGallery_items w1_def)
  from setupLazyLoading_grid [OF g] obtain items' where it:
    "container (setupLazyLoading (renderGallery w1)) = GridView items'"
    "length items' =
       length (map (\<lambda>(index, x). createImageItem x (int index)) (enumerate 0 fetched))"
    "map alt items' =
       map alt (map (\<lambda>(index, x). createImageItem x (int index)) (enumerate 0 fetched))"
    by blast
  from it(2) have l: "length items' = length fetched" by simp
  from it(3) have m: "map alt items' = map name fetched" by (simp only: grid_alt)
  have "images (setupLazyLoading (renderGallery w1)) = fetched"
    by (simp add: setupLazyLoading_def w1_def renderGallery_def split: view.splits)
  with it(1) l m show "case init net w of
         None \<Rightarrow> False
       | Some w' \<Rightarrow>
           (case container w' of
              GridView items \<Rightarrow>
                length items = length fetched \<and> map alt items = map name fetched
            | _ \<Rightarrow> False) \<and>
           images w' = fetched"
    by (simp add: i)
qed

theorem init_outcomes_witness:
  "map_option container (init (Resolved \<lparr>status = 500, body = None\<rparr>) blank_page) =
     Some (ErrorView ''Failed to load gallery. Please try again later.'') \<and>
   map_option container
     (init (Resolved \<lparr>status = 200, body = Some (JObj [(''error'', JBool True)])\<rparr>) blank_page) =
     Some (ErrorView ''Failed to load gallery. Please try again later.'') \<and>
   map_option container (init (Resolved \<lparr>status = 200, body = Some (JArr [])\<rparr>) blank_page) =
     Some EmptyView \<and>
   map_option (\<lambda>w. case container w of GridView items \<Rightarrow> map alt items | _ \<Rightarrow> [])
     (init cat_and_dog_answer blank_page) = Some [''Cat'', ''Dog'']"
proof -
  let ?json = "JArr [JObj [(''id'', JStr ''a''), (''name'', JStr ''Cat'')],
                     JObj [(''id'', JStr ''b''), (''name'', JStr ''Dog'')]]"
  have f1: "fetchImages (Resolved \<lparr>status = 500, body = None\<rparr>) =
      Inl (Error (JStr (''API error: '' @ decimal 500)))"
    by (simp add: fetchImages_def ok_def)
  have f2: "fetchImages (Resolved \<lparr>status = 200, body = Some (JObj [(''error'', JBool True)])\<rparr>) =
      Inl (Error (JStr ''Unknown error''))"
    by (simp add: fetchImages_def ok_def)
  have f3: "fetchImages (Resolved \<lparr>status = 200, body = Some (JArr [])\<rparr>) = Inr (JArr []) \<and>
      as_images (JArr []) = Some []"
    by (simp add: fetchImages_def ok_def)
  have f4: "fetchImages cat_and_dog_answer = Inr ?json \<and>
      as_images ?json = Some cat_and_dog \<and> cat_and_dog \<noteq> []"
    by (simp add: fetchImages_def ok_def cat_and_dog_answer_def cat_and_dog_def)
  from f1 init_outcomes [of "Resolved \<lparr>status = 500, body = None\<rparr>"
      "Error (JStr (''API error: '' @ decimal 500))" blank_page JNull "[]"]
  have g1: "map_option container (init (Resolved \<lparr>status = 500, body = None\<rparr>) blank_page) =
     Some (ErrorView ''Failed to load gallery. Please try again later.'')"
    by (auto split: option.splits)
  from f2 init_outcomes [of
      "Resolved \<lparr>status = 200, body = Some (JObj [(''error'', JBool True)])\<rparr>"
      "Error (JStr ''Unknown error'')" blank_page JNull "[]"]
  have g2: "map_option container
     (init (Resolved \<lparr>status = 200, body = Some (JObj [(''error'', JBool True)])\<rparr>) blank_page) =
     Some (ErrorView ''Failed to load gallery. Please try again later.'')"
    by (auto split: option.splits)
  from f3 init_outcomes [of "Resolved \<lparr>status = 200, body = Some (JArr [])\<rparr>" TypeError
      blank_page "JArr []" "[]"]
  have g3: "map_option container
     (init (Resolved \<lparr>status = 200, body = Some (JArr [])\<rparr>) blank_page) = Some EmptyView"
    by (auto split: option.splits)
  from f4 init_outcomes [of cat_and_dog_answer TypeError blank_page ?json cat_and_dog]
  have g4: "map_option (\<lambda>w. case container w of GridView items \<Rightarrow> map alt items | _ \<Rightarrow> [])
     (init cat_and_dog_answer blank_page) = Some [''Cat'', ''Dog'']"
    by (auto simp: cat_and_dog_def split: option.splits view.splits)
  from g1 g2 g3 g4 show ?thesis by (simp only: simp_thms)
qed

section \<open>Touch navigation\<close>

text \<open>
  Claim C8, as the code has it. With the threshold of 50: a swipe whose start lies more
  than 50 to the right of its end (leftward) does exactly what one call of \<open>nextImage\<close>
  does; one whose end lies more than 50 to the right of its start (rightward) does
  exactly what one call of \<open>prevImage\<close> does; at a horizontal distance of 50 or less
  nothing happens. The same holds for a gesture on the image container of a lightbox of
  the document: after \<open>touchstart\<close> and \<open>touchend\<close> have stored their horizontal
  coordinates, the page is the one that a single \<open>nextImage\<close> (leftward, more than 50),
  a single \<open>prevImage\<close> (rightward, more than 50) or no call at all (at most 50) leaves.
  The vertical coordinate is never read: two gestures with the same horizontal
  coordinates have the same effect, so a gesture is ignored exactly according to its
  horizontal distance, whatever its vertical extent.
\<close>

theorem swipe_navigation:
  "(startX - endX > 50 \<longrightarrow> handleSwipe startX endX w = nextImage w) \<and>
   (endX - startX > 50 \<longrightarrow> handleSwipe startX endX w = prevImage w) \<and>
   (\<bar>startX - endX\<bar> \<le> 50 \<longrightarrow> handleSwipe startX endX w = (None, w)) \<and>
   (n \<in> node ` set (lightboxes w) \<and> screenX t0 - screenX t1 > 50 \<longrightarrow>
      touchend n t1 (snd (touchstart n t0 w)) =
        nextImage (touch_recorded n (screenX t0) (screenX t1) w)) \<and>
   (n \<in> node ` set (lightboxes w) \<and> screenX t1 - screenX t0 > 50 \<longrightarrow>
      touchend n t1 (snd (touchstart n t0 w)) =
        prevImage (touch_recorded n (screenX t0) (screenX t1) w)) \<and>
   (n \<in> node ` set (lightboxes w) \<and> \<bar>screenX t0 - screenX t1\<bar> \<le> 50 \<longrightarrow>
      touchend n t1 (snd (touchstart n t0 w)) =
        (None, touch_recorded n (screenX t0) (screenX t1) w)) \<and>
   (\<bar>screenX t0 - screenX t1\<bar> \<le> 50 \<longrightarrow>
      fst (touchend n t1 (snd (touchstart n t0 w))) = None \<and>
      currentImageIndex (snd (touchend n t1 (snd (touchstart n t0 w)))) = currentImageIndex w) \<and>
   (screenX t0 = screenX s0 \<and> screenX t1 = screenX s1 \<longrightarrow>
      touchend n t1 (snd (touchstart n t0 w)) = touchend n s1 (snd (touchstart n s0 w)))"
proof (intro conjI impI)
  assume "startX - endX > 50"
  then show "handleSwipe startX endX w = nextImage w" by (simp add: handleSwipe_def Let_def)
next
  assume "endX - startX > 50"
  then show "handleSwipe startX endX w = prevImage w" by (simp add: handleSwipe_def Let_def)
next
  assume "\<bar>startX - endX\<bar> \<le> 50"
  then show "handleSwipe startX endX w = (None, w)" by (simp add: handleSwipe_def Let_def)
next
  assume a: "n \<in> node ` set (lightboxes w) \<and> screenX t0 - screenX t1 > 50"
  then have "touchend n t1 (snd (touchstart n t0 w)) =
      handleSwipe (screenX t0) (screenX t1) (touch_recorded n (screenX t0) (screenX t1) w)"
    by (simp add: touch_gesture)
  with a show "touchend n t1 (snd (touchstart n t0 w)) =
        nextImage (touch_recorded n (screenX t0) (screenX t1) w)"
    by (simp add: handleSwipe_def Let_def)
next
  assume a: "n \<in> node ` set (lightboxes w) \<and> screenX t1 - screenX t0 > 50"
  then have "touchend n t1 (snd (touchstart n t0 w)) =
      handleSwipe (screenX t0) (screenX t1) (touch_recorded n (screenX t0) (screenX t1) w)"
    by (simp add: touch_gesture)
  with a show "touchend n t1 (snd (touchstart n t0 w)) =
        prevImage (touch_recorded n (screenX t0) (screenX t1) w)"
    by (simp add: handleSwipe_def Let_def)
next
  assume a: "n \<in> node ` set (lightboxes w) \<and> \<bar>screenX t0 - screenX t1\<bar> \<le> 50"
  then have "touchend n t1 (snd (touchstart n t0 w)) =
      handleSwipe (screenX t0) (screenX t1) (touch_recorded n (screenX t0) (screenX t1) w)"
    by (simp add: touch_gesture)
  with a show "touchend n t1 (snd (touchstart n t0 w)) =
        (None, touch_recorded n (screenX t0) (screenX t1) w)"
    by (simp add: handleSwipe_def Let_def)
next
  assume a: "\<bar>screenX t0 - screenX t1\<bar> \<le> 50"
  have both: "fst (touchend n t1 (snd (touchstart n t0 w))) = None \<and>
      currentImageIndex (snd (touchend n t1 (snd (touchstart n t0 w)))) = currentImageIndex w"
  proof (cases "n \<in> node ` set (lightboxes w)")
    case True
    then have "touchend n t1 (snd (touchstart n t0 w)) =
        handleSwipe (screenX t0) (screenX t1) (touch_recorded n (screenX t0) (screenX t1) w)"
      by (rule touch_gesture)
    with a show ?thesis by (simp add: handleSwipe_def Let_def)
  next
    case False
    then show ?thesis by (simp add: touch_gesture_absent)
  qed
  from both show "fst (touchend n t1 (snd (touchstart n t0 w))) = None" by simp
  from both
  show "currentImageIndex (snd (touchend n t1 (snd (touchstart n t0 w)))) = currentImageIndex w"
    by simp
next
  assume e: "screenX t0 = screenX s0 \<and> screenX t1 = screenX s1"
  show "touchend n t1 (snd (touchstart n t0 w)) = touchend n s1 (snd (touchstart n s0 w))"
  proof (cases "n \<in> node ` set (lightboxes w)")
    case True
    have "touchend n t1 (snd (touchstart n t0 w)) =
        handleSwipe (screenX t0) (screenX t1) (touch_recorded n (screenX t0) (screenX t1) w)"
      using True by (rule touch_gesture)
    moreover have "touchend n s1 (snd (touchstart n s0 w)) =
        handleSwipe (screenX s0) (screenX s1) (touch_recorded n (screenX s0) (screenX s1) w)"
      using True by (rule touch_gesture)
    ultimately show ?thesis using e by simp
  next
    case False
    have "touchend n t1 (snd (touchstart n t0 w)) =
        (None, w\<lparr>lightboxes :=
           update_node n (\<lambda>l. l\<lparr>touchStartX := screenX t0\<rparr>) (lightboxes w)\<rparr>)"
      using False by (rule touch_gesture_absent)
    moreover have "touchend n s1 (snd (touchstart n s0 w)) =
        (None, w\<lparr>lightboxes :=
           update_node n (\<lambda>l. l\<lparr>touchStartX := screenX s0\<rparr>) (lightboxes w)\<rparr>)"
      using False by (rule touch_gesture_absent)
    ultimately show ?thesis using e by simp
  qed
qed

theorem swipe_navigation_witness:
  "handleSwipe 200 100 gallery_F1 = nextImage gallery_F1 \<and>
   handleSwipe 100 200 (gallery_F1\<lparr>currentImageIndex := 1\<rparr>) =
     prevImage (gallery_F1\<lparr>currentImageIndex := 1\<rparr>) \<and>
   handleSwipe 100 150 gallery_F1 = (None, gallery_F1) \<and>
   0 \<in> node ` set (lightboxes (snd (openLightbox 0 gallery_F1))) \<and>
   currentImageIndex (snd (openLightbox 0 gallery_F1)) = 0 \<and>
   currentImageIndex
     (snd (touchend 0 \<lparr>screenX = 100, screenY = 10\<rparr>
        (snd (touchstart 0 \<lparr>screenX = 200, screenY = 10\<rparr> (snd (openLightbox 0 gallery_F1))))))
     = 1 \<and>
   0 \<in> node ` set (lightboxes (snd (openLightbox 1 gallery_F1))) \<and>
   currentImageIndex (snd (openLightbox 1 gallery_F1)) = 1 \<and>
   currentImageIndex
     (snd (touchend 0 \<lparr>screenX = 200, screenY = 10\<rparr>
        (snd (touchstart 0 \<lparr>screenX = 100, screenY = 10\<rparr> (snd (openLightbox 1 gallery_F1))))))
     = 0 \<and>
   currentImageIndex
     (snd (touchend 0 \<lparr>screenX = 100, screenY = 900\<rparr>
        (snd (touchstart 0 \<lparr>screenX = 100, screenY = 10\<rparr> (snd (openLightbox 0 gallery_F1))))))
     = 0 \<and>
   touchend 0 \<lparr>screenX = 100, screenY = 900\<rparr>
     (snd (touchstart 0 \<lparr>screenX = 200, screenY = 10\<rparr> (snd (openLightbox 0 gallery_F1)))) =
   touchend 0 \<lparr>screenX = 100, screenY = 10\<rparr>
     (snd (touchstart 0 \<lparr>screenX = 200, screenY = 10\<rparr> (snd (openLightbox 0 gallery_F1))))"
proof -
  let ?w0 = "snd (openLightbox 0 gallery_F1)"
  let ?w1 = "snd (openLightbox 1 gallery_F1)"
  let ?a = "\<lparr>screenX = 200, screenY = 10\<rparr>"
  let ?b = "\<lparr>screenX = 100, screenY = 10\<rparr>"
  let ?c = "\<lparr>screenX = 100, screenY = 900\<rparr>"
  have s1: "handleSwipe 200 100 gallery_F1 = nextImage gallery_F1"
    using swipe_navigation [where startX = 200 and endX = 100 and w = gallery_F1 and n = 0
        and ?t0.0 = ?a and ?t1.0 = ?b and ?s0.0 = ?a and ?s1.0 = ?b]
    by simp
  have s2: "handleSwipe 100 200 (gallery_F1\<lparr>currentImageIndex := 1\<rparr>) =
      prevImage (gallery_F1\<lparr>currentImageIndex := 1\<rparr>)"
    using swipe_navigation [where startX = 100 and endX = 200
        and w = "gallery_F1\<lparr>currentImageIndex := 1\<rparr>" and n = 0
        and ?t0.0 = ?a and ?t1.0 = ?b and ?s0.0 = ?a and ?s1.0 = ?b]
    by simp
  have s3: "handleSwipe 100 150 gallery_F1 = (None, gallery_F1)"
    using swipe_navigation [where startX = 100 and endX = 150 and w = gallery_F1 and n = 0
        and ?t0.0 = ?a and ?t1.0 = ?b and ?s0.0 = ?a and ?s1.0 = ?b]
    by simp
  have m0: "0 \<in> node ` set (lightboxes ?w0)" by (simp add: lb_defs ex_defs)
  have m1: "0 \<in> node ` set (lightboxes ?w1)" by (simp add: lb_defs ex_defs)
  have i0: "currentImageIndex ?w0 = 0" "length (images ?w0) = 2"
    by (simp_all add: lb_defs ex_defs)
  have i1: "currentImageIndex ?w1 = 1" "length (images ?w1) = 2"
    by (simp_all add: lb_defs ex_defs)
  have left: "touchend 0 ?b (snd (touchstart 0 ?a ?w0)) = nextImage (touch_recorded 0 200 100 ?w0)"
    using m0 swipe_navigation [where startX = 200 and endX = 100 and w = ?w0 and n = 0
        and ?t0.0 = ?a and ?t1.0 = ?b and ?s0.0 = ?a and ?s1.0 = ?c]
    by simp
  have right: "touchend 0 ?a (snd (touchstart 0 ?b ?w1)) = prevImage (touch_recorded 0 100 200 ?w1)"
    using m1 swipe_navigation [where startX = 200 and endX = 100 and w = ?w1 and n = 0
        and ?t0.0 = ?b and ?t1.0 = ?a and ?s0.0 = ?a and ?s1.0 = ?c]
    by simp
  have short: "currentImageIndex (snd (touchend 0 ?c (snd (touchstart 0 ?b ?w0)))) =
      currentImageIndex ?w0"
    using swipe_navigation [where startX = 200 and endX = 100 and w = ?w0 and n = 0
        and ?t0.0 = ?b and ?t1.0 = ?c and ?s0.0 = ?a and ?s1.0 = ?c]
    by simp
  have same: "touchend 0 ?c (snd (touchstart 0 ?a ?w0)) = touchend 0 ?b (snd (touchstart 0 ?a ?w0))"
    using swipe_navigation [where startX = 200 and endX = 100 and w = ?w0 and n = 0
        and ?t0.0 = ?a and ?t1.0 = ?c and ?s0.0 = ?a and ?s1.0 = ?b]
    by simp
  have l: "currentImageIndex (snd (touchend 0 ?b (snd (touchstart 0 ?a ?w0)))) = 1"
    by (simp add: left nextImage_index i0)
  have r: "currentImageIndex (snd (touchend 0 ?a (snd (touchstart 0 ?b ?w1)))) = 0"
    by (simp add: right prevImage_index i1)
  from short have sh: "currentImageIndex (snd (touchend 0 ?c (snd (touchstart 0 ?b ?w0)))) = 0"
    by (simp only: i0)
  from s1 s2 s3 m0 i0(1) l m1 i1(1) r sh same show ?thesis by blast
qed

text \<open>
  The claim as written fails in its last clause: a gesture that goes 60 across (to the
  right) and 900 down on the open lightbox at the second of two images is far more
  vertical than horizontal, and it runs \<open>prevImage\<close>: the index goes from 1 to 0.
\<close>

theorem vertical_swipe_navigates:
  "currentImageIndex (snd (openLightbox 1 gallery_F1)) = 1 \<and>
   \<bar>screenY \<lparr>screenX = 100, screenY = 0\<rparr> - screenY \<lparr>screenX = 160, screenY = 900\<rparr>\<bar> >
     \<bar>screenX \<lparr>screenX = 100, screenY = 0\<rparr> - screenX \<lparr>screenX = 160, screenY = 900\<rparr>\<bar> \<and>
   fst (touchend 0 \<lparr>screenX = 160, screenY = 900\<rparr>
          (snd (touchstart 0 \<lparr>screenX = 100, screenY = 0\<rparr> (snd (openLightbox 1 gallery_F1)))))
     = None \<and>
   currentImageIndex
     (snd (touchend 0 \<lparr>screenX = 160, screenY = 900\<rparr>
        (snd (touchstart 0 \<lparr>screenX = 100, screenY = 0\<rparr> (snd (openLightbox 1 gallery_F1))))))
     = 0"
proof -
  let ?w1 = "snd (openLightbox 1 gallery_F1)"
  have m1: "0 \<in> node ` set (lightboxes ?w1)" by (simp add: lb_defs ex_defs)
  have i1: "currentImageIndex ?w1 = 1" "length (images ?w1) = 2"
    by (simp_all add: lb_defs ex_defs)
  have g: "touchend 0 \<lparr>screenX = 160, screenY = 900\<rparr>
        (snd (touchstart 0 \<lparr>screenX = 100, screenY = 0\<rparr> ?w1)) =
      prevImage (touch_recorded 0 100 160 ?w1)"
    using touch_gesture [OF m1, of "\<lparr>screenX = 160, screenY = 900\<rparr>"
        "\<lparr>screenX = 100, screenY = 0\<rparr>"]
    by (simp add: handleSwipe_def Let_def)
  have r: "index_in_range (touch_recorded 0 100 160 ?w1)"
    by (simp add: index_in_range_def i1)
  show ?thesis
    by (simp add: g prevImage_index prevImage_returns [OF r] i1)
qed

end
